theory Spec2Isabelle
  imports Complex_Main "HOL-Library.Multiset"
begin

section \<open>Text primitives\<close>

text \<open>
  Strings are lists of characters. The labels given to the matcher, the patterns and the
  service replies are taken to be ASCII text; the text that the OCR engine returns is of any
  characters, see the screen analyzer. Python's \<^verbatim>\<open>float\<close> values (confidences, overlap ratios) are modelled as exact
  rationals: the comparisons made on them below (an overlap ratio of integer areas against
  one half, sums of the tenths 0.6, 0.3, 0.1 and 0.2 against each other and against 1) come
  out the same in binary floating point.
\<close>

definition is_space :: "char \<Rightarrow> bool" where
  \<comment> \<open>\<^verbatim>\<open>str.isspace\<close> on ASCII: tab, LF, VT, FF, CR, FS, GS, RS, US and the blank\<close>
  "is_space c = (let n = (of_char c :: nat) in (9 \<le> n \<and> n \<le> 13) \<or> (28 \<le> n \<and> n \<le> 32))"

definition is_word :: "char \<Rightarrow> bool" where
  \<comment> \<open>the regex class \<^verbatim>\<open>\w\<close> on ASCII: digits, letters and the underscore\<close>
  "is_word c = (let n = (of_char c :: nat) in
     (48 \<le> n \<and> n \<le> 57) \<or> (65 \<le> n \<and> n \<le> 90) \<or> n = 95 \<or> (97 \<le> n \<and> n \<le> 122))"

definition lower_char :: "char \<Rightarrow> char" where
  "lower_char c = (let n = (of_char c :: nat) in
     if 65 \<le> n \<and> n \<le> 90 then char_of (n + 32) else c)"

definition lower :: "string \<Rightarrow> string" where
  \<comment> \<open>\<^verbatim>\<open>str.lower()\<close>\<close>
  "lower s = map lower_char s"

definition strip_chars :: "char list \<Rightarrow> string \<Rightarrow> string" where
  \<comment> \<open>\<^verbatim>\<open>s.strip(chars)\<close>: drop leading and trailing characters that occur in \<open>chars\<close>\<close>
  "strip_chars cs s = rev (dropWhile (\<lambda>c. c \<in> set cs) (rev (dropWhile (\<lambda>c. c \<in> set cs) s)))"


definition strip :: "string \<Rightarrow> string" where
  \<comment> \<open>\<^verbatim>\<open>s.strip()\<close>: drop leading and trailing whitespace\<close>
  "strip s = rev (dropWhile is_space (rev (dropWhile is_space s)))"

fun starts_with :: "'a list \<Rightarrow> 'a list \<Rightarrow> bool" where
  "starts_with [] s = True"
| "starts_with (p # ps) [] = False"
| "starts_with (p # ps) (c # cs) = (p = c \<and> starts_with ps cs)"

fun str_in :: "'a list \<Rightarrow> 'a list \<Rightarrow> bool" where
  \<comment> \<open>\<^verbatim>\<open>sub in s\<close>\<close>
  "str_in sub [] = starts_with sub []"
| "str_in sub (c # cs) = (starts_with sub (c # cs) \<or> str_in sub cs)"

function replace_str :: "string \<Rightarrow> string \<Rightarrow> string \<Rightarrow> string" where
  \<comment> \<open>\<^verbatim>\<open>s.replace(old, new)\<close> for a non-empty \<open>old\<close>: leftmost occurrences, not overlapping\<close>
  "replace_str old new [] = []"
| "replace_str old new (c # cs) =
     (if old \<noteq> [] \<and> starts_with old (c # cs)
      then new @ replace_str old new (drop (length old) (c # cs))
      else c # replace_str old new cs)"
  by pat_completeness auto
termination
  by (relation "measure (\<lambda>(old, new, s). length s)") auto

fun split_acc :: "char \<Rightarrow> string \<Rightarrow> string \<Rightarrow> string list" where
  "split_acc sep cur [] = [rev cur]"
| "split_acc sep cur (c # cs) =
     (if c = sep then rev cur # split_acc sep [] cs else split_acc sep (c # cur) cs)"

definition split :: "char \<Rightarrow> string \<Rightarrow> string list" where
  \<comment> \<open>\<^verbatim>\<open>s.split(sep)\<close> for a one-character separator\<close>
  "split sep s = split_acc sep [] s"

section \<open>The regular expressions of the pattern table\<close>

text \<open>
  The patterns handed to \<^verbatim>\<open>re.search\<close> are built from four forms only: the word boundary
  \<^verbatim>\<open>\b\<close>, the whitespace run \<^verbatim>\<open>\s*\<close>, an escaped parenthesis, and a literal character.
  A backslash cannot be written inside a string literal, so the raw pattern text is assembled
  from the pieces below: \<^verbatim>\<open>\bfirst\s*name\b\<close> is \<open>bb @ ''first'' @ ss @ ''name'' @ bb\<close>.
\<close>

definition bsl :: char where "bsl = CHR 0x5C"

definition bb :: string where
  \<comment> \<open>the two characters \<^verbatim>\<open>\b\<close>\<close>
  "bb = [bsl, CHR ''b'']"

definition ss :: string where
  \<comment> \<open>the three characters \<^verbatim>\<open>\s*\<close>\<close>
  "ss = [bsl, CHR ''s'', CHR ''*'']"

definition lpar :: string where
  \<comment> \<open>the two characters \<^verbatim>\<open>\(\<close>\<close>
  "lpar = [bsl, CHR ''('']"

definition rpar :: string where
  \<comment> \<open>the two characters \<^verbatim>\<open>\)\<close>\<close>
  "rpar = [bsl, CHR '')'']"

datatype atom = Boundary | SpaceStar | Lit char

fun compile :: "string \<Rightarrow> atom list option" where
  \<comment> \<open>\<^verbatim>\<open>re.compile\<close> on the fragment; \<open>None\<close> for a pattern outside it\<close>
  "compile [] = Some []"
| "compile (c # cs) =
     (if c = bsl then
        (case cs of
           [] \<Rightarrow> None
         | d # ds \<Rightarrow>
            if d = CHR ''b'' then map_option (\<lambda>as. Boundary # as) (compile ds)
            else if d = CHR ''s'' then
              (case ds of
                 [] \<Rightarrow> None
               | e # es \<Rightarrow> if e = CHR ''*'' then map_option (\<lambda>as. SpaceStar # as) (compile es)
                           else None)
            else if d = CHR ''('' \<or> d = CHR '')'' then map_option (\<lambda>as. Lit d # as) (compile ds)
            else None)
      else if is_word c \<or> c = CHR ''-'' \<or> c = CHR '' '' then map_option (\<lambda>as. Lit c # as) (compile cs)
      else None)"

definition at_boundary :: "char option \<Rightarrow> string \<Rightarrow> bool" where
  \<comment> \<open>\<^verbatim>\<open>\b\<close>: exactly one of the characters before and after the position is a word character\<close>
  "at_boundary prev rest =
     ((case prev of None \<Rightarrow> False | Some c \<Rightarrow> is_word c)
      \<noteq> (case rest of [] \<Rightarrow> False | c # _ \<Rightarrow> is_word c))"

function match_here :: "atom list \<Rightarrow> char option \<Rightarrow> string \<Rightarrow> bool" where
  \<comment> \<open>does the pattern match starting at this position (\<open>prev\<close> is the character before it)\<close>
  "match_here [] prev rest = True"
| "match_here (Boundary # as) prev rest = (at_boundary prev rest \<and> match_here as prev rest)"
| "match_here (Lit c # as) prev [] = False"
| "match_here (Lit c # as) prev (d # ds) = (c = d \<and> match_here as (Some d) ds)"
| "match_here (SpaceStar # as) prev [] = match_here as prev []"
| "match_here (SpaceStar # as) prev (d # ds) =
     (match_here as prev (d # ds) \<or> (is_space d \<and> match_here (SpaceStar # as) (Some d) ds))"
  by pat_completeness auto
termination
  by (relation "measures [\<lambda>(as, prev, rest). length rest, \<lambda>(as, prev, rest). length as]") auto

fun search_from :: "atom list \<Rightarrow> char option \<Rightarrow> string \<Rightarrow> bool" where
  "search_from as prev [] = match_here as prev []"
| "search_from as prev (c # cs) = (match_here as prev (c # cs) \<or> search_from as (Some c) cs)"

definition re_search :: "string \<Rightarrow> string \<Rightarrow> bool" where
  \<comment> \<open>\<^verbatim>\<open>re.search(pattern, text)\<close> as a truth value\<close>
  "re_search pattern text =
     (case compile pattern of None \<Rightarrow> False | Some as \<Rightarrow> search_from as None text)"

section \<open>The field matcher\<close>

record FieldMatch =
  field_name :: string
  data_key :: string
  confidence :: rat
  reasoning :: string

text \<open>The table \<^verbatim>\<open>self.field_patterns\<close>, in the order the dictionary is written and iterated.\<close>

definition field_patterns :: "(string \<times> string list) list" where
  "field_patterns =
    [(''first_name'',
       [bb @ ''first'' @ ss @ ''name'' @ bb,
        bb @ ''fname'' @ bb,
        bb @ ''given'' @ ss @ ''name'' @ bb,
        bb @ ''forename'' @ bb,
        bb @ ''name'' @ ss @ lpar @ ''first'' @ rpar,
        bb @ ''first'' @ bb]),
     (''last_name'',
       [bb @ ''last'' @ ss @ ''name'' @ bb,
        bb @ ''lname'' @ bb,
        bb @ ''surname'' @ bb,
        bb @ ''family'' @ ss @ ''name'' @ bb,
        bb @ ''name'' @ ss @ lpar @ ''last'' @ rpar,
        bb @ ''last'' @ bb]),
     (''full_name'',
       [bb @ ''full'' @ ss @ ''name'' @ bb,
        bb @ ''name'' @ bb,
        bb @ ''complete'' @ ss @ ''name'' @ bb,
        bb @ ''your'' @ ss @ ''name'' @ bb,
        bb @ ''applicant'' @ ss @ ''name'' @ bb]),
     (''email'',
       [bb @ ''email'' @ bb,
        bb @ ''e-mail'' @ bb,
        bb @ ''email'' @ ss @ ''address'' @ bb,
        bb @ ''contact'' @ ss @ ''email'' @ bb,
        bb @ ''mail'' @ bb]),
     (''phone'',
       [bb @ ''phone'' @ bb,
        bb @ ''telephone'' @ bb,
        bb @ ''mobile'' @ bb,
        bb @ ''cell'' @ bb,
        bb @ ''phone'' @ ss @ ''number'' @ bb,
        bb @ ''contact'' @ ss @ ''number'' @ bb,
        bb @ ''tel'' @ bb]),
     (''address'',
       [bb @ ''address'' @ bb,
        bb @ ''street'' @ bb,
        bb @ ''home'' @ ss @ ''address'' @ bb,
        bb @ ''mailing'' @ ss @ ''address'' @ bb,
        bb @ ''residential'' @ ss @ ''address'' @ bb]),
     (''city'',
       [bb @ ''city'' @ bb,
        bb @ ''town'' @ bb,
        bb @ ''locality'' @ bb]),
     (''state'',
       [bb @ ''state'' @ bb,
        bb @ ''province'' @ bb,
        bb @ ''region'' @ bb]),
     (''zip'',
       [bb @ ''zip'' @ bb,
        bb @ ''postal'' @ ss @ ''code'' @ bb,
        bb @ ''postcode'' @ bb,
        bb @ ''zip'' @ ss @ ''code'' @ bb]),
     (''country'',
       [bb @ ''country'' @ bb,
        bb @ ''nation'' @ bb,
        bb @ ''nationality'' @ bb]),
     (''university'',
       [bb @ ''university'' @ bb,
        bb @ ''college'' @ bb,
        bb @ ''school'' @ bb,
        bb @ ''institution'' @ bb,
        bb @ ''education'' @ bb,
        bb @ ''alma'' @ ss @ ''mater'' @ bb]),
     (''degree'',
       [bb @ ''degree'' @ bb,
        bb @ ''qualification'' @ bb,
        bb @ ''education'' @ ss @ ''level'' @ bb,
        bb @ ''major'' @ bb,
        bb @ ''field'' @ ss @ ''of'' @ ss @ ''study'' @ bb]),
     (''graduation_year'',
       [bb @ ''graduation'' @ bb,
        bb @ ''year'' @ bb,
        bb @ ''grad'' @ ss @ ''year'' @ bb,
        bb @ ''completion'' @ ss @ ''year'' @ bb,
        bb @ ''graduate'' @ ss @ ''year'' @ bb]),
     (''gpa'',
       [bb @ ''gpa'' @ bb,
        bb @ ''grade'' @ ss @ ''point'' @ bb,
        bb @ ''average'' @ bb,
        bb @ ''grading'' @ bb]),
     (''visa_status'',
       [bb @ ''visa'' @ bb,
        bb @ ''work'' @ ss @ ''authorization'' @ bb,
        bb @ ''eligibility'' @ bb,
        bb @ ''status'' @ bb,
        bb @ ''sponsorship'' @ bb]),
     (''salary_expectation'',
       [bb @ ''salary'' @ bb,
        bb @ ''compensation'' @ bb,
        bb @ ''expectation'' @ bb,
        bb @ ''expected'' @ ss @ ''salary'' @ bb,
        bb @ ''pay'' @ bb,
        bb @ ''wage'' @ bb]),
     (''start_date'',
       [bb @ ''start'' @ ss @ ''date'' @ bb,
        bb @ ''available'' @ bb,
        bb @ ''begin'' @ bb,
        bb @ ''commence'' @ bb,
        bb @ ''start'' @ ss @ ''work'' @ bb]),
     (''linkedin'',
       [bb @ ''linkedin'' @ bb,
        bb @ ''linked'' @ ss @ ''in'' @ bb,
        bb @ ''profile'' @ bb]),
     (''website'',
       [bb @ ''website'' @ bb,
        bb @ ''portfolio'' @ bb,
        bb @ ''url'' @ bb,
        bb @ ''homepage'' @ bb])]"

definition generic_patterns :: "string list" where
  "generic_patterns = [bb @ ''name'' @ bb, bb @ ''address'' @ bb]"

definition calculate_pattern_confidence :: "string \<Rightarrow> string \<Rightarrow> rat" where
  \<comment> \<open>\<^verbatim>\<open>pattern.strip(r'\b')\<close> strips the characters backslash and b from both ends\<close>
  "calculate_pattern_confidence pattern field_label =
     (let confidence = 0.6;
          pattern_clean = replace_str ss '' '' (strip_chars bb pattern);
          confidence = (if str_in pattern_clean field_label then confidence + 0.3 else confidence);
          confidence = (if length pattern_clean < 10 then confidence + 0.1 else confidence);
          confidence = (if List.member generic_patterns pattern then confidence - 0.2 else confidence)
      in min 1.0 confidence)"

type_synonym best = "FieldMatch option \<times> rat"

definition pattern_step :: "string \<Rightarrow> string \<Rightarrow> string \<Rightarrow> best \<Rightarrow> string \<Rightarrow> best" where
  \<comment> \<open>the body of the inner loop: \<open>best\<close> is \<^verbatim>\<open>(best_match, best_confidence)\<close>\<close>
  "pattern_step field_label field_label_lower key best pattern =
     (if re_search pattern field_label_lower then
        (let c = calculate_pattern_confidence pattern field_label_lower in
         if c > snd best
         then (Some \<lparr>field_name = field_label, data_key = key, confidence = c,
                      reasoning = ''Pattern match: '' @ pattern\<rparr>, c)
         else best)
      else best)"

definition scan_patterns :: "(string \<times> string list) list \<Rightarrow> string \<Rightarrow> string \<Rightarrow> best \<Rightarrow> best" where
  \<comment> \<open>the two nested loops over the table\<close>
  "scan_patterns table field_label field_label_lower best =
     foldl (\<lambda>b (key, patterns). foldl (pattern_step field_label field_label_lower key) b patterns)
       best table"

definition file_keywords :: "(string \<times> string list) list" where
  "file_keywords =
    [(''resume'', [''resume'', ''cv'', ''curriculum vitae'']),
     (''cover_letter'', [''cover letter'', ''covering letter'', ''motivation'']),
     (''transcript'', [''transcript'', ''grades'', ''academic record''])]"

definition pattern_field_matching :: "string \<Rightarrow> string \<Rightarrow> FieldMatch option" where
  \<comment> \<open>\<^verbatim>\<open>_pattern_field_matching\<close>\<close>
  "pattern_field_matching field_label field_type =
     (if field_label = [] then None
      else
        (let field_label_lower = lower field_label;
             best_match = fst (scan_patterns field_patterns field_label field_label_lower (None, 0.0))
         in if field_type = ''file'' then
              (case List.find (\<lambda>(file_type, keywords).
                       list_ex (\<lambda>keyword. str_in keyword field_label_lower) keywords) file_keywords of
                 Some (file_type, keywords) \<Rightarrow>
                   Some \<lparr>field_name = field_label, data_key = file_type, confidence = 0.8,
                         reasoning = ''File upload field for '' @ file_type\<rparr>
               | None \<Rightarrow> best_match)
            else best_match))"

definition validate_field_mapping :: "string \<Rightarrow> string \<Rightarrow> bool" where
  "validate_field_mapping field_label key =
     (if field_label = [] \<or> key = [] then False
      else (case map_of field_patterns key of
              None \<Rightarrow> False
            | Some patterns \<Rightarrow> list_ex (\<lambda>pattern. re_search pattern (lower field_label)) patterns))"

definition ai_field_matching ::
  "(string \<Rightarrow> rat option) \<Rightarrow> string option \<Rightarrow> string \<Rightarrow> string \<Rightarrow> FieldMatch option" where
  \<comment> \<open>\<^verbatim>\<open>_ai_field_matching\<close>. \<open>reply\<close> is the text of the service's answer to the one request,
      \<open>None\<close> when the request raised; \<open>float_of\<close> is Python's \<^verbatim>\<open>float()\<close>, \<open>None\<close> where it
      raises \<^verbatim>\<open>ValueError\<close>. Every exception is caught and turns into \<^verbatim>\<open>None\<close>.\<close>
  "ai_field_matching float_of reply field_label field_type =
     (case reply of
        None \<Rightarrow> None
      | Some text \<Rightarrow>
          (let result = strip text;
               parts = split CHR ''|'' result
           in if length parts \<ge> 3 \<and> parts ! 0 \<noteq> ''unknown'' then
                (case float_of (strip (parts ! 1)) of
                   None \<Rightarrow> None
                 | Some c \<Rightarrow>
                     Some \<lparr>field_name = field_label, data_key = strip (parts ! 0), confidence = c,
                           reasoning = strip (parts ! 2)\<rparr>)
              else None))"

section \<open>Detected fields\<close>

text \<open>
  The label of a field is a Python string. Where it comes from the OCR engine it is a list of
  characters of any type \<open>'c\<close>; the matcher below is modelled on labels of ASCII characters.
\<close>

record 'c FormField =
  x :: int
  y :: int
  width :: int
  height :: int
  field_type :: string
  label :: "'c list option"
  placeholder :: "'c list option"
  confidence :: rat

text \<open>
  The matcher object: \<open>anthropic\<close> is \<open>None\<close> without an API key, and otherwise the service,
  which answers the \<open>n\<close>-th request of a run (for a label and a field type) with a text or fails.
\<close>

type_synonym service = "nat \<Rightarrow> string \<Rightarrow> string \<Rightarrow> string option"

fun match_fields_from ::
  "(string \<Rightarrow> rat option) \<Rightarrow> service option \<Rightarrow> bool \<Rightarrow> nat \<Rightarrow> char FormField list \<Rightarrow> FieldMatch list" where
  "match_fields_from float_of anthropic use_ai n [] = []"
| "match_fields_from float_of anthropic use_ai n (field # rest) =
     (let lbl = (case label field of None \<Rightarrow> [] | Some l \<Rightarrow> l);
          asked = (use_ai \<and> anthropic \<noteq> None \<and> lbl \<noteq> []);
          ai_match = (case anthropic of
                        None \<Rightarrow> None
                      | Some service \<Rightarrow>
                          if asked
                          then ai_field_matching float_of (service n lbl (field_type field)) lbl
                                 (field_type field)
                          else None);
          n' = (if asked then Suc n else n)
      in case ai_match of
           Some m \<Rightarrow> m # match_fields_from float_of anthropic use_ai n' rest
         | None \<Rightarrow>
            (case pattern_field_matching lbl (field_type field) of
               Some m \<Rightarrow> m # match_fields_from float_of anthropic use_ai n' rest
             | None \<Rightarrow> match_fields_from float_of anthropic use_ai n' rest))"

definition match_fields ::
  "(string \<Rightarrow> rat option) \<Rightarrow> service option \<Rightarrow> char FormField list \<Rightarrow> bool \<Rightarrow> FieldMatch list" where
  "match_fields float_of anthropic detected_fields use_ai =
     match_fields_from float_of anthropic use_ai 0 detected_fields"

definition add_mapping :: "(string \<rightharpoonup> string) \<Rightarrow> FieldMatch \<Rightarrow> (string \<rightharpoonup> string)" where
  \<comment> \<open>the body of the loop of \<^verbatim>\<open>get_suggested_mappings\<close>\<close>
  "add_mapping mappings m =
     (if FieldMatch.confidence m > 0.5 then mappings(field_name m \<mapsto> data_key m) else mappings)"

definition get_suggested_mappings ::
  "(string \<Rightarrow> rat option) \<Rightarrow> service option \<Rightarrow> char FormField list \<Rightarrow> (string \<rightharpoonup> string)" where
  "get_suggested_mappings float_of anthropic detected_fields =
     foldl add_mapping Map.empty (match_fields float_of anthropic detected_fields True)"

section \<open>The screen analyzer\<close>

datatype error = ValueError | Cv2Error | ZeroDivisionError

subsection \<open>Removing duplicates\<close>

definition overlap_ratio :: "'c FormField \<Rightarrow> 'c FormField \<Rightarrow> error + rat" where
  \<comment> \<open>\<^verbatim>\<open>overlap_area / min(field_area, existing_area)\<close>; the division raises on a zero area\<close>
  "overlap_ratio field existing =
     (let overlap_x = max 0 (min (x field + width field) (x existing + width existing)
                              - max (x field) (x existing));
          overlap_y = max 0 (min (y field + height field) (y existing + height existing)
                              - max (y field) (y existing));
          overlap_area = overlap_x * overlap_y;
          field_area = width field * height field;
          existing_area = width existing * height existing
      in if min field_area existing_area = 0 then Inl ZeroDivisionError
         else Inr (of_int overlap_area / of_int (min field_area existing_area)))"

fun is_duplicate :: "'c FormField \<Rightarrow> 'c FormField list \<Rightarrow> error + bool" where
  \<comment> \<open>the inner loop over \<^verbatim>\<open>filtered_fields\<close>, leaving at the first overlap above one half\<close>
  "is_duplicate field [] = Inr False"
| "is_duplicate field (existing # rest) =
     (case overlap_ratio field existing of
        Inl e \<Rightarrow> Inl e
      | Inr r \<Rightarrow> if r > 0.5 then Inr True else is_duplicate field rest)"

fun filter_fields :: "'c FormField list \<Rightarrow> 'c FormField list \<Rightarrow> error + 'c FormField list" where
  \<comment> \<open>the outer loop; the first argument is \<^verbatim>\<open>filtered_fields\<close>\<close>
  "filter_fields filtered_fields [] = Inr filtered_fields"
| "filter_fields filtered_fields (field # rest) =
     (case is_duplicate field filtered_fields of
        Inl e \<Rightarrow> Inl e
      | Inr dup \<Rightarrow>
          filter_fields (if dup then filtered_fields else filtered_fields @ [field]) rest)"

definition sort_by_confidence :: "'c FormField list \<Rightarrow> 'c FormField list" where
  \<comment> \<open>\<^verbatim>\<open>fields.sort(key=lambda f: f.confidence, reverse=True)\<close>: descending and stable\<close>
  "sort_by_confidence flds = sort_key (\<lambda>f. - FormField.confidence f) flds"

definition remove_duplicates :: "'c FormField list \<Rightarrow> error + 'c FormField list" where
  \<comment> \<open>the value that \<^verbatim>\<open>_remove_duplicates\<close> returns\<close>
  "remove_duplicates flds =
     (if flds = [] then Inr flds else filter_fields [] (sort_by_confidence flds))"

text \<open>
  The same function on list objects (\<open>flds\<close> is the source's \<^verbatim>\<open>fields\<close>). A heap is the sequence of the list objects allocated so
  far and a reference is an index into it. The function sorts the object it is given in place,
  and builds its result in a new object, except that it hands an empty input back as it is.
\<close>

type_synonym 'c heap = "'c FormField list list"

definition remove_duplicates_ref :: "nat \<Rightarrow> 'c heap \<Rightarrow> (error + nat) \<times> 'c heap" where
  "remove_duplicates_ref flds h =
     (if h ! flds = [] then (Inr flds, h)
      else
        (let h1 = h[flds := sort_by_confidence (h ! flds)]
         in case filter_fields [] (h1 ! flds) of
              Inl e \<Rightarrow> (Inl e, h1)
            | Inr filtered_fields \<Rightarrow> (Inr (length h1), h1 @ [filtered_fields])))"

subsection \<open>The collaborators: OpenCV, the OCR engine and Python's character tables\<close>








subsection \<open>Labels near a field\<close>










subsection \<open>Detection\<close>










section \<open>Notions used in the proofs\<close>

text \<open>
  On regions of positive width and height no division fails, and the two loops compute the
  greedy selection below. A list is a chain after \<open>kept\<close> when each of its regions overlaps
  none of those before it, \<open>kept\<close> included, by more than one half.
\<close>

definition positive :: "'c FormField \<Rightarrow> bool" where
  "positive f = (0 < width f \<and> 0 < height f)"

definition overlaps :: "'c FormField \<Rightarrow> 'c FormField \<Rightarrow> bool" where
  "overlaps f e = (case overlap_ratio f e of Inl _ \<Rightarrow> False | Inr r \<Rightarrow> r > 0.5)"

fun greedy :: "'c FormField list \<Rightarrow> 'c FormField list \<Rightarrow> 'c FormField list" where
  "greedy kept [] = kept"
| "greedy kept (f # rest) = greedy (if list_ex (overlaps f) kept then kept else kept @ [f]) rest"

fun chain :: "'c FormField list \<Rightarrow> 'c FormField list \<Rightarrow> bool" where
  "chain kept [] = True"
| "chain kept (f # rest) = (\<not> list_ex (overlaps f) kept \<and> chain (kept @ [f]) rest)"

text \<open>The best match so far, if any, has its data key in \<open>K\<close>.\<close>

definition keyed :: "string set \<Rightarrow> best \<Rightarrow> bool" where
  "keyed K b = (case fst b of None \<Rightarrow> True | Some m \<Rightarrow> data_key m \<in> K)"

text \<open>
  The parts of a service reply, and the matches that the suggested-mappings loop writes under
  the label \<open>k\<close>.
\<close>

definition reply_parts :: "string \<Rightarrow> string list" where
  "reply_parts text = split CHR ''|'' (strip text)"

definition confident :: "string \<Rightarrow> FieldMatch \<Rightarrow> bool" where
  "confident k m = (FieldMatch.confidence m > 0.5 \<and> field_name m = k)"







section \<open>Example inputs\<close>

definition ex_hi :: "char FormField" where
  "ex_hi = \<lparr>x = 10, y = 5, width = 100, height = 30, field_type = ''file'',
            label = Some ''Upload'', placeholder = None, confidence = 0.9\<rparr>"

definition ex_lo :: "char FormField" where
  "ex_lo = \<lparr>x = 0, y = 0, width = 100, height = 30, field_type = ''input'',
            label = None, placeholder = None, confidence = 0.7\<rparr>"

text \<open>
  A reading of plain decimal literals, the part of Python's \<^verbatim>\<open>float()\<close> that the examples
  need, and a service that answers for two labels.
\<close>

definition digit_of :: "char \<Rightarrow> nat option" where
  "digit_of c = (let n = (of_char c :: nat) in if 48 \<le> n \<and> n \<le> 57 then Some (n - 48) else None)"

definition decimal_float :: "string \<Rightarrow> rat option" where
  \<comment> \<open>\<^verbatim>\<open>float()\<close> on plain decimal literals: an optional sign, digits, at most one point\<close>
  "decimal_float s =
     (let neg = (case s of [] \<Rightarrow> False | c # _ \<Rightarrow> c = CHR ''-'');
          body = (case s of [] \<Rightarrow> [] | c # cs \<Rightarrow> if c = CHR ''-'' \<or> c = CHR ''+'' then cs else s);
          whole = takeWhile (\<lambda>c. c \<noteq> CHR ''.'') body;
          frac = drop 1 (dropWhile (\<lambda>c. c \<noteq> CHR ''.'') body);
          ds = map digit_of (whole @ frac)
      in if whole @ frac = [] \<or> list_ex (\<lambda>d. d = None) ds then None
         else Some ((if neg then - 1 else 1)
                * (of_nat (foldl (\<lambda>n d. 10 * n + the d) 0 ds) / 10 ^ length frac)))"

definition ex_service :: service where
  "ex_service n lbl kind =
     (if lbl = ''Contact'' then Some ''email|0.45|a guess''
      else if lbl = ''Mobile'' then Some ''phone|0.51|likely a phone''
      else None)"

definition ex_fields :: "char FormField list" where
  "ex_fields =
     [\<lparr>x = 0, y = 0, width = 200, height = 30, field_type = ''input'',
       label = Some ''Contact'', placeholder = None, confidence = 0.7\<rparr>,
      \<lparr>x = 0, y = 50, width = 200, height = 30, field_type = ''input'',
       label = Some ''Mobile'', placeholder = None, confidence = 0.7\<rparr>]"




section \<open>Properties of the deduplicator\<close>

lemma overlap_ratio_pos:
  assumes "0 < width a" "0 < height a" "0 < width b" "0 < height b"
  shows "\<exists>r. overlap_ratio a b = Inr r"
proof -
  have "0 < width a * height a" "0 < width b * height b"
    using assms by simp_all
  then have "min (width a * height a) (width b * height b) \<noteq> 0"
    by (auto simp: min_def)
  then show ?thesis
    by (simp add: overlap_ratio_def Let_def)
qed

lemma overlap_ratio_sym: "overlap_ratio a b = overlap_ratio b a"
  by (simp add: overlap_ratio_def Let_def min.commute max.commute)

text \<open>
  C1. Two regions \<open>a\<close> and \<open>b\<close> with positive widths and heights, \<open>a\<close> with the higher
  confidence, given in either order. Their overlap ratio \<open>r\<close> (intersection area over the
  smaller area) is defined and does not depend on the order. If \<open>r\<close> exceeds one half the
  output is exactly the region \<open>a\<close>: the one of lower confidence is dropped. Otherwise the
  output holds both regions.
\<close>

theorem pairwise_suppression:
  assumes "0 < width a" "0 < height a" "0 < width b" "0 < height b"
    and "FormField.confidence b < FormField.confidence a"
  shows "\<exists>r. overlap_ratio a b = Inr r \<and> overlap_ratio b a = Inr r
     \<and> (if r > 0.5
         then remove_duplicates [a, b] = Inr [a] \<and> remove_duplicates [b, a] = Inr [a]
         else remove_duplicates [a, b] = Inr [a, b] \<and> remove_duplicates [b, a] = Inr [a, b])"
proof -
  obtain r where r: "overlap_ratio b a = Inr r"
    using overlap_ratio_pos [OF assms(3,4,1,2)] by blast
  have s1: "sort_by_confidence [a, b] = [a, b]"
    using assms(5) by (simp add: sort_by_confidence_def)
  have s2: "sort_by_confidence [b, a] = [a, b]"
    using assms(5) by (simp add: sort_by_confidence_def)
  have "filter_fields [] [a, b] = Inr (if r > 0.5 then [a] else [a, b])"
    using r by simp
  then show ?thesis
    using r s1 s2 overlap_ratio_sym [of a b] by (simp add: remove_duplicates_def)
qed

theorem pairwise_suppression_witness:
  "0 < width ex_hi \<and> 0 < height ex_hi \<and> 0 < width ex_lo \<and> 0 < height ex_lo
   \<and> FormField.confidence ex_lo < FormField.confidence ex_hi
   \<and> overlap_ratio ex_hi ex_lo = Inr (3 / 4)
   \<and> remove_duplicates [ex_lo, ex_hi] = Inr [ex_hi]"
proof -
  have h: "0 < width ex_hi" "0 < height ex_hi" "0 < width ex_lo" "0 < height ex_lo"
    "FormField.confidence ex_lo < FormField.confidence ex_hi"
    by (simp_all add: ex_hi_def ex_lo_def)
  have r: "overlap_ratio ex_hi ex_lo = Inr (3 / 4)"
    by (simp add: overlap_ratio_def ex_hi_def ex_lo_def)
  from pairwise_suppression [OF h] r have "remove_duplicates [ex_lo, ex_hi] = Inr [ex_hi]"
    by (auto split: if_splits)
  with h r show ?thesis by simp
qed

lemma is_duplicate_positive:
  "positive f \<Longrightarrow> list_all positive kept \<Longrightarrow> is_duplicate f kept = Inr (list_ex (overlaps f) kept)"
proof (induction kept)
  case Nil
  then show ?case by simp
next
  case (Cons e kept)
  then obtain r where "overlap_ratio f e = Inr r"
    using overlap_ratio_pos [of f e] by (auto simp: positive_def)
  with Cons show ?case by (simp add: overlaps_def)
qed

lemma filter_fields_positive:
  "list_all positive kept \<Longrightarrow> list_all positive fs \<Longrightarrow> filter_fields kept fs = Inr (greedy kept fs)"
proof (induction fs arbitrary: kept)
  case Nil
  then show ?case by simp
next
  case (Cons f fs)
  then show ?case by (simp add: is_duplicate_positive)
qed

lemma chain_append: "chain kept (us @ vs) = (chain kept us \<and> chain (kept @ us) vs)"
  by (induction us arbitrary: kept) auto

lemma greedy_chain: "chain [] kept \<Longrightarrow> chain [] (greedy kept fs)"
proof (induction fs arbitrary: kept)
  case Nil
  then show ?case by simp
next
  case (Cons f fs)
  show ?case
  proof (cases "list_ex (overlaps f) kept")
    case True
    with Cons show ?thesis by simp
  next
    case False
    with Cons.prems have "chain [] (kept @ [f])" by (simp add: chain_append)
    with Cons.IH False show ?thesis by simp
  qed
qed

lemma greedy_of_chain: "chain kept fs \<Longrightarrow> greedy kept fs = kept @ fs"
  by (induction fs arbitrary: kept) auto

lemma greedy_subset: "set (greedy kept fs) \<subseteq> set kept \<union> set fs"
proof (induction fs arbitrary: kept)
  case Nil
  then show ?case by simp
next
  case (Cons f fs)
  have "set (greedy (kept @ [f]) fs) \<subseteq> set (kept @ [f]) \<union> set fs"
    and "set (greedy kept fs) \<subseteq> set kept \<union> set fs"
    by (rule Cons.IH)+
  then show ?case by auto
qed

lemma greedy_sorted:
  "sorted (map k (kept @ fs)) \<Longrightarrow> sorted (map k (greedy kept fs))"
proof (induction fs arbitrary: kept)
  case Nil
  then show ?case by simp
next
  case (Cons f fs)
  show ?case
  proof (cases "list_ex (overlaps f) kept")
    case True
    from Cons.prems have "sorted (map k (kept @ fs))"
      by (auto simp: sorted_append)
    with Cons.IH True show ?thesis by simp
  next
    case False
    with Cons.IH [of "kept @ [f]"] Cons.prems show ?thesis by simp
  qed
qed

lemma sort_by_confidence_sorted:
  "sort_by_confidence (greedy [] (sort_by_confidence fs)) = greedy [] (sort_by_confidence fs)"
  unfolding sort_by_confidence_def
  by (rule sort_key_id_if_sorted, rule greedy_sorted) simp

lemma positive_sort: "list_all positive fs \<Longrightarrow> list_all positive (sort_by_confidence fs)"
  by (simp add: sort_by_confidence_def list_all_iff)

lemma positive_greedy: "list_all positive fs \<Longrightarrow> list_all positive (greedy [] fs)"
  using greedy_subset [of "[]" fs] by (auto simp: list_all_iff)

lemma remove_duplicates_positive:
  "list_all positive fs \<Longrightarrow> remove_duplicates fs = Inr (greedy [] (sort_by_confidence fs))"
  by (cases "fs = []")
     (simp_all add: remove_duplicates_def filter_fields_positive positive_sort, simp add: sort_by_confidence_def)

text \<open>
  C4. On a list of regions of positive widths and heights the deduplicator returns a list, and
  applied to that list it returns the same list again: the second pass keeps every region.
\<close>

theorem deduplicator_idempotent:
  assumes "\<forall>f \<in> set fs. 0 < width f \<and> 0 < height f"
  shows "\<exists>out. remove_duplicates fs = Inr out \<and> remove_duplicates out = Inr out"
proof -
  let ?out = "greedy [] (sort_by_confidence fs)"
  have p: "list_all positive fs"
    using assms by (simp add: list_all_iff positive_def)
  then have 1: "remove_duplicates fs = Inr ?out"
    by (rule remove_duplicates_positive)
  have "list_all positive ?out"
    using p by (simp add: positive_sort positive_greedy)
  then have "remove_duplicates ?out = Inr (greedy [] (sort_by_confidence ?out))"
    by (rule remove_duplicates_positive)
  also have "sort_by_confidence ?out = ?out"
    by (rule sort_by_confidence_sorted)
  also have "greedy [] ?out = [] @ ?out"
    by (rule greedy_of_chain) (simp add: greedy_chain)
  finally show ?thesis using 1 by simp
qed

theorem deduplicator_idempotent_witness:
  "0 < width ex_lo \<and> 0 < height ex_lo \<and> 0 < width ex_hi \<and> 0 < height ex_hi
   \<and> remove_duplicates [ex_lo, ex_hi] = Inr [ex_hi] \<and> remove_duplicates [ex_hi] = Inr [ex_hi]"
proof -
  have h: "\<forall>f \<in> set [ex_lo, ex_hi]. 0 < width f \<and> 0 < height f"
    by (simp add: ex_hi_def ex_lo_def)
  have r: "remove_duplicates [ex_lo, ex_hi] = Inr [ex_hi]"
    by (simp add: remove_duplicates_def sort_by_confidence_def overlap_ratio_def ex_hi_def ex_lo_def)
  from deduplicator_idempotent [OF h] r have "remove_duplicates [ex_hi] = Inr [ex_hi]"
    by auto
  with h r show ?thesis by simp
qed

lemma sort_by_confidence_fixed:
  "(sort_by_confidence fs = fs) = sorted (map (\<lambda>f. - FormField.confidence f) fs)"
proof
  assume "sort_by_confidence fs = fs"
  then have "map (\<lambda>f. - FormField.confidence f) fs
      = map (\<lambda>f. - FormField.confidence f) (sort_key (\<lambda>f. - FormField.confidence f) fs)"
    by (simp add: sort_by_confidence_def)
  then show "sorted (map (\<lambda>f. - FormField.confidence f) fs)"
    by (simp only: sorted_sort_key)
next
  assume "sorted (map (\<lambda>f. - FormField.confidence f) fs)"
  then show "sort_by_confidence fs = fs"
    by (simp add: sort_by_confidence_def sort_key_id_if_sorted)
qed

text \<open>
  C5, as stated, fails: the deduplicator sorts the list it is given in place, so a list that
  is not in descending order of confidence is in another order after the call.
\<close>

theorem input_order_counterexample:
  "snd (remove_duplicates_ref 0 [[ex_lo, ex_hi]]) ! 0 \<noteq> [ex_lo, ex_hi]"
  by (simp add: remove_duplicates_ref_def sort_by_confidence_def overlap_ratio_def
      ex_hi_def ex_lo_def)

text \<open>
  C5, amended. After the call on the list object \<open>a\<close>, that object holds the same regions
  as before, stably sorted by descending confidence; its order is unchanged exactly when it
  was in descending order of confidence already. Every other list object is as it was. The
  value returned is the one of \<open>remove_duplicates\<close>; for a non-empty input it is stored in a
  new object, and an empty input is returned as it is.
\<close>

theorem input_sorted_in_place:
  assumes "a < length h"
  shows "(case remove_duplicates_ref a h of (res, h') \<Rightarrow>
      h' ! a = sort_by_confidence (h ! a)
    \<and> mset (h' ! a) = mset (h ! a)
    \<and> (h' ! a = h ! a) = sorted (map (\<lambda>f. - FormField.confidence f) (h ! a))
    \<and> (\<forall>b < length h. b \<noteq> a \<longrightarrow> h' ! b = h ! b)
    \<and> (case res of
         Inl e \<Rightarrow> remove_duplicates (h ! a) = Inl e \<and> length h' = length h
       | Inr r \<Rightarrow> remove_duplicates (h ! a) = Inr (h' ! r)
           \<and> (if h ! a = [] then r = a \<and> h' = h else r = length h \<and> length h' = Suc (length h))))"
proof (cases "h ! a = []")
  case True
  then have "h[a := []] = h"
    using list_update_id [of h a] by simp
  with True show ?thesis
    by (simp add: remove_duplicates_ref_def remove_duplicates_def sort_by_confidence_def)
next
  case False
  let ?s = "sort_by_confidence (h ! a)"
  have m: "mset ?s = mset (h ! a)"
    by (simp add: sort_by_confidence_def)
  have fx: "(?s = h ! a) = sorted (map (\<lambda>f. - FormField.confidence f) (h ! a))"
    by (rule sort_by_confidence_fixed)
  show ?thesis
  proof (cases "filter_fields [] ?s")
    case (Inl e)
    with False assms m fx show ?thesis
      by (simp add: remove_duplicates_ref_def remove_duplicates_def Let_def)
  next
    case (Inr out)
    with False assms m fx show ?thesis
      by (simp add: remove_duplicates_ref_def remove_duplicates_def Let_def nth_append)
  qed
qed

theorem input_sorted_in_place_witness:
  "(0::nat) < length [[ex_lo, ex_hi]]
   \<and> remove_duplicates_ref 0 [[ex_lo, ex_hi]] = (Inr 1, [[ex_hi, ex_lo], [ex_hi]])"
proof -
  have h: "(0::nat) < length [[ex_lo, ex_hi]]" by simp
  have s: "sort_by_confidence [ex_lo, ex_hi] = [ex_hi, ex_lo]"
    by (simp add: sort_by_confidence_def ex_hi_def ex_lo_def)
  have r: "remove_duplicates [ex_lo, ex_hi] = Inr [ex_hi]"
    by (simp add: remove_duplicates_def sort_by_confidence_def overlap_ratio_def ex_hi_def ex_lo_def)
  obtain res h' where c: "remove_duplicates_ref 0 [[ex_lo, ex_hi]] = (res, h')"
    by (cases "remove_duplicates_ref 0 [[ex_lo, ex_hi]]")
  from input_sorted_in_place [OF h] c s r
  have "h' ! 0 = [ex_hi, ex_lo]" and "res = Inr 1" and "length h' = 2" and "h' ! 1 = [ex_hi]"
    by (auto split: sum.splits)
  then have "h' = [[ex_hi, ex_lo], [ex_hi]]"
    by (cases h'; cases "tl h'"; cases "tl (tl h')") auto
  with c \<open>res = Inr 1\<close> show ?thesis by simp
qed

section \<open>Properties of the pattern matcher\<close>

text \<open>
  C6. For every pattern text, so for each one registered in the table, and for every label,
  so for the empty one and for one of 500 characters, the pattern confidence lies between
  0 and 1.
\<close>

theorem pattern_confidence_bounds:
  "0 \<le> calculate_pattern_confidence pattern lbl \<and> calculate_pattern_confidence pattern lbl \<le> 1"
  by (simp add: calculate_pattern_confidence_def Let_def)

theorem pattern_confidence_bounds_witness:
  "0 \<le> calculate_pattern_confidence (bb @ ''name'' @ bb) (replicate 500 CHR ''a'')
   \<and> calculate_pattern_confidence (bb @ ''name'' @ bb) (replicate 500 CHR ''a'') \<le> 1"
  using pattern_confidence_bounds [of "bb @ ''name'' @ bb" "replicate 500 CHR ''a''"] by simp

lemma non_file_kind:
  "kind \<noteq> ''file'' \<Longrightarrow> pattern_field_matching lbl kind = pattern_field_matching lbl ''input''"
  by (simp add: pattern_field_matching_def)

lemma email_address_input:
  "pattern_field_matching ''Email Address'' ''input''
     = Some \<lparr>field_name = ''Email Address'', data_key = ''email'', confidence = 1,
             reasoning = ''Pattern match: '' @ bb @ ''email'' @ bb\<rparr>"
  by code_simp

lemma xyz123_input: "pattern_field_matching ''xyz123'' ''input'' = None"
  by code_simp

text \<open>
  C2. For every field kind other than the file kind, the pattern matcher resolves the label
  "Email Address" to a match with data key \<open>email\<close> and a confidence of at least 0.6, and
  finds no match for the label "xyz123".
\<close>

theorem pattern_matcher_examples:
  assumes "kind \<noteq> ''file''"
  shows "(\<exists>m. pattern_field_matching ''Email Address'' kind = Some m
            \<and> data_key m = ''email'' \<and> FieldMatch.confidence m \<ge> 0.6)
       \<and> pattern_field_matching ''xyz123'' kind = None"
  using non_file_kind [OF assms] by (simp add: email_address_input xyz123_input)

theorem pattern_matcher_examples_witness:
  "''select'' \<noteq> ''file''
   \<and> map_option data_key (pattern_field_matching ''Email Address'' ''select'') = Some ''email''
   \<and> pattern_field_matching ''xyz123'' ''select'' = None"
proof -
  have h: "''select'' \<noteq> ''file''" by simp
  from pattern_matcher_examples [OF h] show ?thesis by auto
qed

lemma pattern_step_keyed: "keyed K b \<Longrightarrow> key \<in> K \<Longrightarrow> keyed K (pattern_step l ll key b p)"
  by (simp add: pattern_step_def keyed_def Let_def)

lemma patterns_keyed:
  "keyed K b \<Longrightarrow> key \<in> K \<Longrightarrow> keyed K (foldl (pattern_step l ll key) b ps)"
  by (induction ps arbitrary: b) (simp_all add: pattern_step_keyed)

lemma scan_patterns_keyed:
  "keyed K b \<Longrightarrow> fst ` set table \<subseteq> K \<Longrightarrow> keyed K (scan_patterns table l ll b)"
  unfolding scan_patterns_def
proof (induction table arbitrary: b)
  case Nil
  then show ?case by simp
next
  case (Cons e table)
  obtain key ps where e: "e = (key, ps)" by (cases e)
  with Cons.prems have "keyed K (foldl (pattern_step l ll key) b ps)"
    by (simp add: patterns_keyed)
  with Cons.IH Cons.prems e show ?case by simp
qed

lemma table_keys:
  "map fst field_patterns =
     [''first_name'', ''last_name'', ''full_name'', ''email'', ''phone'', ''address'', ''city'',
      ''state'', ''zip'', ''country'', ''university'', ''degree'', ''graduation_year'', ''gpa'',
      ''visa_status'', ''salary_expectation'', ''start_date'', ''linkedin'', ''website'']"
  by (simp add: field_patterns_def)

lemma best_match_key:
  assumes "fst (scan_patterns field_patterns l ll (None, c)) = Some m"
  shows "data_key m \<in> set (map fst field_patterns)"
proof -
  have "keyed (set (map fst field_patterns)) (scan_patterns field_patterns l ll (None, c))"
    by (rule scan_patterns_keyed) (simp_all add: keyed_def)
  with assms show ?thesis by (simp add: keyed_def)
qed

lemma file_keys:
  "map fst file_keywords = [''resume'', ''cover_letter'', ''transcript'']"
  by (simp add: file_keywords_def)

lemma file_keys_not_in_table: "k \<in> set (map fst file_keywords) \<Longrightarrow> map_of field_patterns k = None"
proof -
  assume "k \<in> set (map fst file_keywords)"
  then have "k \<notin> set (map fst field_patterns)"
    unfolding table_keys by (auto simp: file_keys)
  then show ?thesis
    by (simp add: map_of_eq_None_iff)
qed

lemma validate_file_key: "k \<in> set (map fst file_keywords) \<Longrightarrow> \<not> validate_field_mapping lbl k"
  by (simp add: validate_field_mapping_def file_keys_not_in_table)

lemma file_match_only:
  assumes "pattern_field_matching lbl kind = Some m" and "data_key m \<in> set (map fst file_keywords)"
  shows "kind = ''file'' \<and> FieldMatch.confidence m = 0.8"
proof -
  let ?best = "fst (scan_patterns field_patterns lbl (lower lbl) (None, 0.0))"
  have nb: "?best \<noteq> Some m"
  proof
    assume "?best = Some m"
    then have "data_key m \<in> set (map fst field_patterns)" by (rule best_match_key)
    with assms(2) show False
      unfolding table_keys by (auto simp: file_keys)
  qed
  from assms(1) nb show ?thesis
    by (auto simp: pattern_field_matching_def Let_def split: if_splits option.splits)
qed

lemma file_emitted:
  assumes "lbl \<noteq> []"
    and "List.find (\<lambda>(file_type, keywords). list_ex (\<lambda>keyword. str_in keyword (lower lbl)) keywords)
           file_keywords = Some (ft, kws)"
  shows "pattern_field_matching lbl ''file'' =
     Some \<lparr>field_name = lbl, data_key = ft, confidence = 0.8,
           reasoning = ''File upload field for '' @ ft\<rparr>"
  using assms by (simp add: pattern_field_matching_def Let_def)

lemma resume_label:
  "List.find (\<lambda>(file_type, keywords).
       list_ex (\<lambda>keyword. str_in keyword (lower ''Upload Resume'')) keywords) file_keywords
     = Some (''resume'', [''resume'', ''cv'', ''curriculum vitae''])"
  by code_simp

lemma cover_letter_label:
  "List.find (\<lambda>(file_type, keywords).
       list_ex (\<lambda>keyword. str_in keyword (lower ''Cover Letter'')) keywords) file_keywords
     = Some (''cover_letter'', [''cover letter'', ''covering letter'', ''motivation''])"
  by code_simp

lemma transcript_label:
  "List.find (\<lambda>(file_type, keywords).
       list_ex (\<lambda>keyword. str_in keyword (lower ''Transcript'')) keywords) file_keywords
     = Some (''transcript'', [''transcript'', ''grades'', ''academic record''])"
  by code_simp

text \<open>
  C10. Let \<open>k\<close> be one of the keys of the file-keyword table: \<open>resume\<close>, \<open>cover_letter\<close> or
  \<open>transcript\<close>. It is no key of the pattern table, so \<open>validate_field_mapping\<close> is false
  for every label with \<open>k\<close>. Yet the pattern matcher emits \<open>k\<close> on some label of a file
  field, with confidence 0.8, and whenever it emits \<open>k\<close> the field is a file field and the
  confidence is 0.8.
\<close>

theorem file_keys_fail_validation:
  assumes "k \<in> set (map fst file_keywords)"
  shows "map_of field_patterns k = None
     \<and> \<not> validate_field_mapping lbl k
     \<and> (\<exists>l m. pattern_field_matching l ''file'' = Some m \<and> data_key m = k
            \<and> FieldMatch.confidence m = 0.8)
     \<and> (pattern_field_matching l' kind = Some m' \<and> data_key m' = k
          \<longrightarrow> kind = ''file'' \<and> FieldMatch.confidence m' = 0.8)"
proof -
  have 1: "map_of field_patterns k = None"
    using assms by (rule file_keys_not_in_table)
  have 2: "\<not> validate_field_mapping lbl k"
    using assms by (rule validate_file_key)
  have 3: "\<exists>l m. pattern_field_matching l ''file'' = Some m \<and> data_key m = k
            \<and> FieldMatch.confidence m = 0.8"
  proof -
    from assms consider "k = ''resume''" | "k = ''cover_letter''" | "k = ''transcript''"
      unfolding file_keys by auto
    then show ?thesis
    proof cases
      case 1
      with file_emitted [OF _ resume_label] show ?thesis by fastforce
    next
      case 2
      with file_emitted [OF _ cover_letter_label] show ?thesis by fastforce
    next
      case 3
      with file_emitted [OF _ transcript_label] show ?thesis by fastforce
    qed
  qed
  have 4: "pattern_field_matching l' kind = Some m' \<and> data_key m' = k
          \<longrightarrow> kind = ''file'' \<and> FieldMatch.confidence m' = 0.8"
    using assms file_match_only [of l' kind m'] by blast
  from 1 2 3 4 show ?thesis by blast
qed

theorem file_keys_fail_validation_witness:
  "''resume'' \<in> set (map fst file_keywords)
   \<and> \<not> validate_field_mapping ''Upload Resume'' ''resume''
   \<and> pattern_field_matching ''Upload Resume'' ''file'' =
       Some \<lparr>field_name = ''Upload Resume'', data_key = ''resume'', confidence = 0.8,
             reasoning = ''File upload field for resume''\<rparr>"
proof -
  have h: "''resume'' \<in> set (map fst file_keywords)"
    by (simp add: file_keywords_def)
  have e: "pattern_field_matching ''Upload Resume'' ''file'' =
       Some \<lparr>field_name = ''Upload Resume'', data_key = ''resume'', confidence = 0.8,
             reasoning = ''File upload field for resume''\<rparr>"
    using file_emitted [OF _ resume_label] by simp
  from file_keys_fail_validation [OF h, of "''Upload Resume''"] h e show ?thesis
    by simp
qed

section \<open>Properties of the AI-assisted matcher and of the suggested mappings\<close>

lemma unknown_reply:
  "reply_parts ''unknown|0.0|no idea'' = [''unknown'', ''0.0'', ''no idea'']"
  by code_simp

lemma phone_reply:
  "reply_parts ''phone|0.92|clear phone field'' = [''phone'', ''0.92'', ''clear phone field'']"
  by code_simp

lemma strip_examples:
  "strip ''phone'' = ''phone''" "strip ''0.92'' = ''0.92''"
  "strip ''clear phone field'' = ''clear phone field''"
  by code_simp+

lemma ai_none_iff:
  "(ai_field_matching float_of (Some text) lbl kind = None)
     = (length (reply_parts text) < 3 \<or> reply_parts text ! 0 = ''unknown''
        \<or> float_of (strip (reply_parts text ! 1)) = None)"
  by (auto simp: ai_field_matching_def reply_parts_def Let_def split: option.splits)

text \<open>
  What the parser does with a reply, whatever \<^verbatim>\<open>float()\<close> is: the reply
  \<^verbatim>\<open>unknown|0.0|no idea\<close> yields no match; the reply \<^verbatim>\<open>phone|0.92|clear phone field\<close> yields a
  match with data key \<open>phone\<close> and confidence 0.92, given that \<^verbatim>\<open>float("0.92")\<close> is 0.92; a
  reply whose first part, as it stands before it is stripped, is \<open>unknown\<close> yields no match;
  a reply whose confidence does not parse yields no match. A reply of at least three parts
  with another first part and a confidence that parses yields a match, and a failed request
  yields none.
\<close>

lemma ai_reply_cases:
  "ai_field_matching float_of (Some ''unknown|0.0|no idea'') lbl kind = None
   \<and> (float_of ''0.92'' = Some 0.92 \<longrightarrow>
        ai_field_matching float_of (Some ''phone|0.92|clear phone field'') lbl kind
          = Some \<lparr>field_name = lbl, data_key = ''phone'', confidence = 0.92,
                  reasoning = ''clear phone field''\<rparr>)
   \<and> (reply_parts text ! 0 = ''unknown'' \<longrightarrow>
        ai_field_matching float_of (Some text) lbl kind = None)
   \<and> (float_of (strip (reply_parts text ! 1)) = None \<longrightarrow>
        ai_field_matching float_of (Some text) lbl kind = None)
   \<and> (length (reply_parts text) \<ge> 3 \<and> reply_parts text ! 0 \<noteq> ''unknown''
        \<and> float_of (strip (reply_parts text ! 1)) = Some c \<longrightarrow>
        ai_field_matching float_of (Some text) lbl kind
          = Some \<lparr>field_name = lbl, data_key = strip (reply_parts text ! 0), confidence = c,
                  reasoning = strip (reply_parts text ! 2)\<rparr>)
   \<and> ai_field_matching float_of None lbl kind = None"
proof -
  have 1: "ai_field_matching float_of (Some ''unknown|0.0|no idea'') lbl kind = None"
    by (simp add: ai_none_iff unknown_reply)
  have 2: "float_of ''0.92'' = Some 0.92 \<longrightarrow>
        ai_field_matching float_of (Some ''phone|0.92|clear phone field'') lbl kind
          = Some \<lparr>field_name = lbl, data_key = ''phone'', confidence = 0.92,
                  reasoning = ''clear phone field''\<rparr>"
    using phone_reply
    by (simp add: ai_field_matching_def reply_parts_def Let_def strip_examples)
  have 3: "reply_parts text ! 0 = ''unknown'' \<longrightarrow>
        ai_field_matching float_of (Some text) lbl kind = None"
    by (simp add: ai_none_iff)
  have 4: "float_of (strip (reply_parts text ! 1)) = None \<longrightarrow>
        ai_field_matching float_of (Some text) lbl kind = None"
    by (simp add: ai_none_iff)
  have 5: "length (reply_parts text) \<ge> 3 \<and> reply_parts text ! 0 \<noteq> ''unknown''
        \<and> float_of (strip (reply_parts text ! 1)) = Some c \<longrightarrow>
        ai_field_matching float_of (Some text) lbl kind
          = Some \<lparr>field_name = lbl, data_key = strip (reply_parts text ! 0), confidence = c,
                  reasoning = strip (reply_parts text ! 2)\<rparr>"
    by (simp add: ai_field_matching_def reply_parts_def Let_def)
  have 6: "ai_field_matching float_of None lbl kind = None"
    by (simp add: ai_field_matching_def)
  from 1 2 3 4 5 6 show ?thesis by blast
qed

lemma blank_reply:
  "reply_parts ''unknown |0.0|no idea'' = [''unknown '', ''0.0'', ''no idea'']"
  "strip ''unknown '' = ''unknown''" "strip ''0.0'' = ''0.0''" "strip ''no idea'' = ''no idea''"
  by code_simp+

lemma decimal_00: "decimal_float ''0.0'' = Some 0"
  by code_simp

text \<open>
  C7. A reply whose key is the literal \<open>unknown\<close> is to yield no match. The code compares the
  first part with \<open>unknown\<close> before it strips it, and emits it stripped: on the reply
  \<^verbatim>\<open>unknown |0.0|no idea\<close>, with a blank before the first bar, the key is \<open>unknown\<close> and yet a
  match with the data key \<open>unknown\<close> is returned.
\<close>

theorem unknown_key_accepted:
  assumes "float_of ''0.0'' = Some 0"
  shows "strip (reply_parts ''unknown |0.0|no idea'' ! 0) = ''unknown''
     \<and> ai_field_matching float_of (Some ''unknown |0.0|no idea'') lbl kind
         = Some \<lparr>field_name = lbl, data_key = ''unknown'', confidence = 0,
                 reasoning = ''no idea''\<rparr>"
  using assms blank_reply
  by (simp add: ai_field_matching_def reply_parts_def Let_def)

theorem unknown_key_accepted_witness:
  "decimal_float ''0.0'' = Some 0
   \<and> ai_field_matching decimal_float (Some ''unknown |0.0|no idea'') ''Status'' ''input''
       = Some \<lparr>field_name = ''Status'', data_key = ''unknown'', confidence = 0,
               reasoning = ''no idea''\<rparr>"
  using unknown_key_accepted [where float_of = decimal_float and lbl = "''Status''"
      and kind = "''input''"] decimal_00
  by simp

lemma mappings_lookup:
  "foldl add_mapping mp ms k =
     (case List.find (confident k) (rev ms) of None \<Rightarrow> mp k | Some m \<Rightarrow> Some (data_key m))"
proof (induction ms rule: rev_induct)
  case Nil
  then show ?case by simp
next
  case (snoc m ms)
  then show ?case
    by (simp add: add_mapping_def confident_def)
qed

lemma find_rev_unique:
  assumes "m \<in> set ms" and "\<forall>m' \<in> set ms. field_name m' = field_name m \<longrightarrow> m' = m"
  shows "List.find (confident (field_name m)) (rev ms)
           = (if FieldMatch.confidence m > 0.5 then Some m else None)"
proof (cases "FieldMatch.confidence m > 0.5")
  case True
  then have "confident (field_name m) m" by (simp add: confident_def)
  with assms(1) obtain m' where f: "List.find (confident (field_name m)) (rev ms) = Some m'"
    by (cases "List.find (confident (field_name m)) (rev ms)") (auto simp: find_None_iff)
  then have "m' \<in> set ms" "field_name m' = field_name m"
    by (auto simp: find_Some_iff confident_def) (metis nth_mem length_rev set_rev)
  with assms(2) f True show ?thesis by auto
next
  case False
  have "\<not> (\<exists>m' \<in> set (rev ms). confident (field_name m) m')"
    using assms(2) False by (auto simp: confident_def)
  then have "List.find (confident (field_name m)) (rev ms) = None"
    by (auto simp: find_None_iff)
  with False show ?thesis by simp
qed

text \<open>
  C9. Let \<open>ms\<close> be the matches resolved for a list of detected fields and \<open>view\<close> the suggested
  mappings. The view maps a label to the data key of the last match that has this label and a
  confidence above 0.5. Every entry of the view comes from a match of confidence above 0.5.
  The label of every such match is in the view. For a match that shares its label with no
  other match, the entry from its label to its data key is in the view if and only if its
  confidence is above 0.5. The loop skips a match of confidence 0.45 and writes the entry of a match of
  confidence 0.51.
\<close>

theorem suggested_mappings_threshold:
  fixes float_of anthropic detected_fields
  defines "ms \<equiv> match_fields float_of anthropic detected_fields True"
    and "view \<equiv> get_suggested_mappings float_of anthropic detected_fields"
  shows "view k = map_option data_key (List.find (confident k) (rev ms))
       \<and> (view k = Some v \<longrightarrow>
            (\<exists>m \<in> set ms. field_name m = k \<and> data_key m = v \<and> FieldMatch.confidence m > 0.5))
       \<and> (m \<in> set ms \<and> FieldMatch.confidence m > 0.5 \<longrightarrow> field_name m \<in> dom view)
       \<and> (m \<in> set ms \<and> (\<forall>m' \<in> set ms. field_name m' = field_name m \<longrightarrow> m' = m) \<longrightarrow>
            (view (field_name m) = Some (data_key m)) = (FieldMatch.confidence m > 0.5)
            \<and> (field_name m \<in> dom view) = (FieldMatch.confidence m > 0.5))
       \<and> (FieldMatch.confidence m = 0.45 \<longrightarrow> add_mapping mp m = mp)
       \<and> (FieldMatch.confidence m = 0.51 \<longrightarrow> add_mapping mp m = mp(field_name m \<mapsto> data_key m))"
proof -
  have look: "view k' = map_option data_key (List.find (confident k') (rev ms))" for k'
    unfolding view_def ms_def get_suggested_mappings_def
    by (simp add: mappings_lookup split: option.splits)
  have 1: "view k = Some v \<longrightarrow>
            (\<exists>m \<in> set ms. field_name m = k \<and> data_key m = v \<and> FieldMatch.confidence m > 0.5)"
  proof
    assume "view k = Some v"
    then obtain m' where f: "List.find (confident k) (rev ms) = Some m'" and "data_key m' = v"
      by (auto simp: look)
    from f have "m' \<in> set ms" "confident k m'"
      by (auto simp: find_Some_iff) (metis nth_mem length_rev set_rev)
    with \<open>data_key m' = v\<close> show "\<exists>m \<in> set ms. field_name m = k \<and> data_key m = v \<and> FieldMatch.confidence m > 0.5"
      by (auto simp: confident_def)
  qed
  have 2: "m \<in> set ms \<and> FieldMatch.confidence m > 0.5 \<longrightarrow> field_name m \<in> dom view"
  proof
    assume a: "m \<in> set ms \<and> FieldMatch.confidence m > 0.5"
    then have "\<exists>m' \<in> set (rev ms). confident (field_name m) m'"
      by (auto simp: confident_def)
    then have "List.find (confident (field_name m)) (rev ms) \<noteq> None"
      by (auto simp: find_None_iff)
    then show "field_name m \<in> dom view"
      by (auto simp: look)
  qed
  have 3: "m \<in> set ms \<and> (\<forall>m' \<in> set ms. field_name m' = field_name m \<longrightarrow> m' = m) \<longrightarrow>
            (view (field_name m) = Some (data_key m)) = (FieldMatch.confidence m > 0.5)
            \<and> (field_name m \<in> dom view) = (FieldMatch.confidence m > 0.5)"
    by (auto simp: look find_rev_unique)
  have 4: "FieldMatch.confidence m = 0.45 \<longrightarrow> add_mapping mp m = mp"
    by (simp add: add_mapping_def)
  have 5: "FieldMatch.confidence m = 0.51 \<longrightarrow> add_mapping mp m = mp(field_name m \<mapsto> data_key m)"
    by (simp add: add_mapping_def)
  from look [of k] 1 2 3 4 5 show ?thesis by blast
qed

lemma ex_matches:
  "match_fields decimal_float (Some ex_service) ex_fields True =
     [\<lparr>field_name = ''Contact'', data_key = ''email'', confidence = 0.45, reasoning = ''a guess''\<rparr>,
      \<lparr>field_name = ''Mobile'', data_key = ''phone'', confidence = 0.51,
        reasoning = ''likely a phone''\<rparr>]"
  by code_simp

theorem suggested_mappings_threshold_witness:
  "map FieldMatch.confidence (match_fields decimal_float (Some ex_service) ex_fields True)
     = [0.45, 0.51]
   \<and> get_suggested_mappings decimal_float (Some ex_service) ex_fields ''Contact'' = None
   \<and> get_suggested_mappings decimal_float (Some ex_service) ex_fields ''Mobile'' = Some ''phone''"
proof -
  have c: "map FieldMatch.confidence (match_fields decimal_float (Some ex_service) ex_fields True)
     = [0.45, 0.51]"
    by (simp add: ex_matches)
  note view = suggested_mappings_threshold [where float_of = decimal_float
      and anthropic = "Some ex_service" and detected_fields = ex_fields, THEN conjunct1]
  have 1: "get_suggested_mappings decimal_float (Some ex_service) ex_fields ''Contact'' = None"
    by (simp add: view [of "''Contact''"] ex_matches confident_def)
  have 2: "get_suggested_mappings decimal_float (Some ex_service) ex_fields ''Mobile''
      = Some ''phone''"
    by (simp add: view [of "''Mobile''"] ex_matches confident_def)
  from c 1 2 show ?thesis by simp
qed

section \<open>Properties of the label extractor and of detection\<close>






















end
